theory Spec2Isabelle
  imports Complex_Main
begin

section \<open>PyCalc: operation engine, tokeniser, shunting-yard converter, postfix evaluator\<close>

text \<open>
  The development embeds \<^verbatim>\<open>calculator/operations.py\<close> and
  \<^verbatim>\<open>calculator/parser.py\<close>.

  Conventions of the embedding.
  \<^item> \<^verbatim>\<open>Number = float\<close> is modelled by \<open>real\<close>: rounding, overflow, infinities and
    NaN of binary64 are not modelled. Every concrete value used below is a small integer,
    which binary64 represents exactly.
  \<^item> A Python \<^verbatim>\<open>str\<close> is a \<open>string\<close> whose characters are read as the code points
    U+0000 .. U+00FF; code points beyond that range are outside the model.
  \<^item> Every \<^verbatim>\<open>raise\<close> site of the source is one constructor of \<open>error\<close>, named by the
    failure kind it stands for; a function that may raise returns \<open>error + 'a\<close>.
  \<^item> Python lists used as stacks keep their orientation: \<^verbatim>\<open>xs.append(x)\<close> is
    \<open>xs @ [x]\<close>, \<^verbatim>\<open>xs[-1]\<close> is \<open>last xs\<close>, \<^verbatim>\<open>xs.pop()\<close> leaves \<open>butlast xs\<close>.
  \<^item> Leading underscores of Python names are dropped (\<open>_to_rpn\<close> is \<open>to_rpn\<close>), and
    \<^verbatim>\<open>OperationEngine.apply\<close> is \<open>apply_op\<close>.
\<close>

subsection \<open>Errors and values\<close>

type_synonym Number = real

datatype error =
    InvalidOperatorSymbol
      \<comment> \<open>\<^verbatim>\<open>ValueError("Operation symbol must be a single character.")\<close>\<close>
  | UnknownOperator string
      \<comment> \<open>\<^verbatim>\<open>KeyError(symbol)\<close> raised by \<^verbatim>\<open>self._operations[symbol]\<close>\<close>
  | UnexpectedCharacter nat char
      \<comment> \<open>\<^verbatim>\<open>ValueError(f"Unexpected character at position {i}: '{ch}'")\<close>\<close>
  | FloatConversion string
      \<comment> \<open>\<^verbatim>\<open>ValueError\<close> raised by \<^verbatim>\<open>float(...)\<close> itself\<close>
  | MismatchedParentheses
      \<comment> \<open>\<^verbatim>\<open>ValueError("Mismatched parentheses")\<close>\<close>
  | InsufficientOperands
      \<comment> \<open>\<^verbatim>\<open>ValueError("Insufficient values in expression")\<close>\<close>
  | InvalidToken
      \<comment> \<open>\<^verbatim>\<open>ValueError("Invalid token in RPN expression")\<close>\<close>
  | InvalidExpression
      \<comment> \<open>\<^verbatim>\<open>ValueError("Invalid expression")\<close>\<close>
  | ArithmeticFailure
      \<comment> \<open>an exception raised by an operator function, e.g. \<^verbatim>\<open>ZeroDivisionError\<close>\<close>
  | NonRealResult
      \<comment> \<open>not an exception: the operator function returned a value that is no real number\<close>

text \<open>
  What a call of an operator function does: it returns a number, it raises, or it returns
  something that is not a real number (Python's \<^verbatim>\<open>**\<close> yields a \<^verbatim>\<open>complex\<close> for a negative
  base and a fractional exponent). The last case leaves the model and is kept apart from
  the exceptions.
\<close>

datatype outcome = Returns Number | Raises | NonReal

text \<open>
  What a Python function can hand back where the annotation says \<^verbatim>\<open>Number\<close>: a float, or
  a list of floats. Python's \<^verbatim>\<open>==\<close> between the two shapes is \<^verbatim>\<open>False\<close>.
\<close>

datatype pyval = PyFloat Number | PyList "Number list"

fun py_eq :: "pyval \<Rightarrow> pyval \<Rightarrow> bool" where
  "py_eq (PyFloat a) (PyFloat b) = (a = b)"
| "py_eq (PyList xs) (PyList ys) = (xs = ys)"
| "py_eq (PyFloat a) (PyList ys) = False"
| "py_eq (PyList xs) (PyFloat b) = False"

subsection \<open>operations.py\<close>

record Operation =
  symbol :: string
  func :: "Number \<Rightarrow> Number \<Rightarrow> outcome"
  precedence :: int
  associative :: bool

record OperationEngine =
  operations :: "string \<rightharpoonup> Operation"

text \<open>\<^verbatim>\<open>Operation.__call__\<close>\<close>

definition call :: "Operation \<Rightarrow> Number \<Rightarrow> Number \<Rightarrow> outcome" where
  "call op left right = func op left right"

text \<open>\<^verbatim>\<open>_safe_divide\<close>: raises \<^verbatim>\<open>ZeroDivisionError\<close> when \<^verbatim>\<open>b == 0\<close>.\<close>

definition safe_divide :: "Number \<Rightarrow> Number \<Rightarrow> outcome" where
  "safe_divide a b = (if b = 0 then Raises else Returns (a / b))"

text \<open>
  \<^verbatim>\<open>lambda a, b: a ** b\<close> on floats: anything to the power zero is one; zero to a negative
  power raises \<^verbatim>\<open>ZeroDivisionError\<close>; a negative base with a fractional exponent gives a
  \<^verbatim>\<open>complex\<close>; a negative base with an integral exponent takes the sign of the parity.
\<close>

definition py_pow :: "Number \<Rightarrow> Number \<Rightarrow> outcome" where
  "py_pow a b =
     (if b = 0 then Returns 1
      else if a = 0 then (if b < 0 then Raises else Returns 0)
      else if a < 0 then
        (if b = of_int \<lfloor>b\<rfloor>
         then Returns (if even \<lfloor>b\<rfloor> then (- a) powr b else - ((- a) powr b))
         else NonReal)
      else Returns (a powr b))"

definition register ::
  "OperationEngine \<Rightarrow> string \<Rightarrow> (Number \<Rightarrow> Number \<Rightarrow> outcome) \<Rightarrow> int \<Rightarrow> bool
     \<Rightarrow> error + OperationEngine" where
  "register eng smb f prec assoc =
     (if smb = [] \<or> length smb \<noteq> 1 then Inl InvalidOperatorSymbol
      else Inr (eng\<lparr>operations := (operations eng)
                  (smb \<mapsto> \<lparr>symbol = smb, func = f, precedence = prec, associative = assoc\<rparr>)\<rparr>))"

definition register_default_operations :: "OperationEngine \<Rightarrow> error + OperationEngine" where
  "register_default_operations e0 =
     (case register e0 ''+'' (\<lambda>a b. Returns (a + b)) 1 True of Inl x \<Rightarrow> Inl x | Inr e1 \<Rightarrow>
     (case register e1 ''-'' (\<lambda>a b. Returns (a - b)) 1 True of Inl x \<Rightarrow> Inl x | Inr e2 \<Rightarrow>
     (case register e2 ''*'' (\<lambda>a b. Returns (a * b)) 2 True of Inl x \<Rightarrow> Inl x | Inr e3 \<Rightarrow>
     (case register e3 ''/'' safe_divide 2 True of Inl x \<Rightarrow> Inl x | Inr e4 \<Rightarrow>
      register e4 ''^'' py_pow 3 True))))"

text \<open>\<^verbatim>\<open>OperationEngine.__init__\<close>\<close>

definition OperationEngine_init :: "error + OperationEngine" where
  "OperationEngine_init = register_default_operations \<lparr>operations = Map.empty\<rparr>"

definition get :: "OperationEngine \<Rightarrow> string \<Rightarrow> error + Operation" where
  "get eng smb = (case operations eng smb of None \<Rightarrow> Inl (UnknownOperator smb) | Some op \<Rightarrow> Inr op)"

definition has :: "OperationEngine \<Rightarrow> string \<Rightarrow> bool" where
  "has eng smb = (case operations eng smb of None \<Rightarrow> False | Some op \<Rightarrow> True)"

definition apply_op :: "OperationEngine \<Rightarrow> string \<Rightarrow> Number \<Rightarrow> Number \<Rightarrow> error + Number" where
  "apply_op eng smb left right =
     (case get eng smb of
        Inl e \<Rightarrow> Inl e
      | Inr op \<Rightarrow>
          (case call op left right of
             Returns v \<Rightarrow> Inr v
           | Raises \<Rightarrow> Inl ArithmeticFailure
           | NonReal \<Rightarrow> Inl NonRealResult))"

text \<open>The registry that \<^verbatim>\<open>OperationEngine()\<close> builds, written out.\<close>

definition default_engine :: OperationEngine where
  "default_engine = \<lparr>operations =
     [''+'' \<mapsto> \<lparr>symbol = ''+'', func = (\<lambda>a b. Returns (a + b)), precedence = 1, associative = True\<rparr>,
      ''-'' \<mapsto> \<lparr>symbol = ''-'', func = (\<lambda>a b. Returns (a - b)), precedence = 1, associative = True\<rparr>,
      ''*'' \<mapsto> \<lparr>symbol = ''*'', func = (\<lambda>a b. Returns (a * b)), precedence = 2, associative = True\<rparr>,
      ''/'' \<mapsto> \<lparr>symbol = ''/'', func = safe_divide, precedence = 2, associative = True\<rparr>,
      ''^'' \<mapsto> \<lparr>symbol = ''^'', func = py_pow, precedence = 3, associative = True\<rparr>]\<rparr>"

subsection \<open>parser.py: tokens and character classes\<close>

datatype Token =
    is_NumberToken: NumberToken Number
  | is_OperatorToken: OperatorToken string
  | is_LeftParenToken: LeftParenToken
  | is_RightParenToken: RightParenToken

text \<open>
  \<^verbatim>\<open>str.isspace\<close> and \<^verbatim>\<open>str.isdigit\<close> on the code points U+0000 .. U+00FF. Besides the
  ASCII blanks, Python counts U+001C .. U+001F, U+0085 and U+00A0 as space, and besides
  \<^verbatim>\<open>0\<close> .. \<^verbatim>\<open>9\<close> it counts the superscripts U+00B2, U+00B3 and U+00B9 as digits.
\<close>

definition isspace :: "char \<Rightarrow> bool" where
  "isspace c =
     (let n = (of_char c :: nat)
      in (9 \<le> n \<and> n \<le> 13) \<or> (28 \<le> n \<and> n \<le> 32) \<or> n = 133 \<or> n = 160)"

definition isdigit :: "char \<Rightarrow> bool" where
  "isdigit c =
     (let n = (of_char c :: nat)
      in (48 \<le> n \<and> n \<le> 57) \<or> n = 178 \<or> n = 179 \<or> n = 185)"

definition ascii_digit :: "char \<Rightarrow> bool" where
  "ascii_digit c = (let n = (of_char c :: nat) in 48 \<le> n \<and> n \<le> 57)"

definition digits_value :: "string \<Rightarrow> nat" where
  "digits_value ds = foldl (\<lambda>acc c. 10 * acc + (of_char c - 48)) 0 ds"

text \<open>
  \<^verbatim>\<open>float(s)\<close> on the strings the tokeniser passes to it: characters for which
  \<^verbatim>\<open>isdigit\<close> holds and at most one dot. Python accepts such a string when every digit
  is an ASCII digit and there is at least one (\<^verbatim>\<open>"1."\<close> and \<^verbatim>\<open>".5"\<close> are fine), and raises
  \<^verbatim>\<open>ValueError\<close> on a superscript digit. Other strings are rejected here; the tokeniser
  never builds one.
\<close>

definition py_float :: "string \<Rightarrow> error + Number" where
  "py_float s =
     (let ip = takeWhile (\<lambda>c. c \<noteq> CHR ''.'') s;
          fp = drop 1 (dropWhile (\<lambda>c. c \<noteq> CHR ''.'') s)
      in if list_all ascii_digit ip \<and> list_all ascii_digit fp \<and> (ip \<noteq> [] \<or> fp \<noteq> [])
         then Inr (real (digits_value ip) + real (digits_value fp) / 10 ^ length fp)
         else Inl (FloatConversion s))"

subsection \<open>parser.py: tokenisation\<close>

text \<open>The inner \<^verbatim>\<open>while i < n\<close> loop of a number literal; it returns the final cursor.\<close>

function scan_number :: "string \<Rightarrow> nat \<Rightarrow> bool \<Rightarrow> nat" where
  "scan_number expression i has_dot =
     (if i < length expression then
        (let c = expression ! i
         in if isdigit c then scan_number expression (i + 1) has_dot
            else if c = CHR ''.'' \<and> \<not> has_dot then scan_number expression (i + 1) True
            else i)
      else i)"
  by pat_completeness auto
termination
  by (relation "measure (\<lambda>(expression, i, has_dot). length expression - i)") auto

declare scan_number.simps [simp del]

lemma scan_number_ge: "i \<le> scan_number expression i has_dot"
proof (induction expression i has_dot rule: scan_number.induct)
  case (1 expression i has_dot)
  show ?case
  proof (cases "i < length expression")
    case True
    note lt = this
    show ?thesis
    proof (cases "isdigit (expression ! i)")
      case True
      with lt "1.IH"(1) [OF lt refl True] show ?thesis
        by (subst scan_number.simps) simp
    next
      case False
      note nd = this
      show ?thesis
      proof (cases "expression ! i = CHR ''.'' \<and> \<not> has_dot")
        case True
        with lt nd "1.IH"(2) [OF lt refl nd True] show ?thesis
          by (subst scan_number.simps) simp
      next
        case False
        with lt nd show ?thesis
          by (subst scan_number.simps) auto
      qed
    qed
  next
    case False
    then show ?thesis
      by (subst scan_number.simps) simp
  qed
qed

text \<open>
  The body of the outer \<^verbatim>\<open>while i < n\<close> loop of \<^verbatim>\<open>_tokenise\<close>, run at a cursor
  \<open>i < n\<close>: it raises, or it continues with a new cursor and token list. The variable
  \<^verbatim>\<open>last_token\<close> of the source is written and never read.
\<close>

definition starts_number :: "string \<Rightarrow> nat \<Rightarrow> bool" where
  "starts_number expression i =
     (isdigit (expression ! i) \<or>
      (expression ! i = CHR ''.'' \<and> i + 1 < length expression \<and> isdigit (expression ! (i + 1))))"

definition tokenise_step ::
  "OperationEngine \<Rightarrow> string \<Rightarrow> nat \<Rightarrow> Token list \<Rightarrow> error + (nat \<times> Token list)" where
  "tokenise_step eng expression i tokens =
     (let ch = expression ! i
      in if isspace ch then Inr (i + 1, tokens)
         else if starts_number expression i then
           (let j = scan_number expression (i + 1) (ch = CHR ''.'')
            in case py_float (take (j - i) (drop i expression)) of
                 Inl e \<Rightarrow> Inl e
               | Inr v \<Rightarrow> Inr (j, tokens @ [NumberToken v]))
         else if ch = CHR ''('' then Inr (i + 1, tokens @ [LeftParenToken])
         else if ch = CHR '')'' then Inr (i + 1, tokens @ [RightParenToken])
         else if has eng [ch] then Inr (i + 1, tokens @ [OperatorToken [ch]])
         else Inl (UnexpectedCharacter i ch))"

lemma tokenise_step_advances:
  "tokenise_step eng expression i tokens = Inr (j, tokens') \<Longrightarrow> i < j"
  using scan_number_ge [of "i + 1" expression "expression ! i = CHR ''.''"]
  by (auto simp: tokenise_step_def Let_def split: if_splits sum.splits)

function tokenise_loop ::
  "OperationEngine \<Rightarrow> string \<Rightarrow> nat \<Rightarrow> Token list \<Rightarrow> error + Token list" where
  "tokenise_loop eng expression i tokens =
     (if i < length expression then
        (case tokenise_step eng expression i tokens of
           Inl e \<Rightarrow> Inl e
         | Inr (j, tokens') \<Rightarrow> tokenise_loop eng expression j tokens')
      else Inr tokens)"
  by pat_completeness auto
termination
proof (relation "measure (\<lambda>(eng, expression, i, tokens). length expression - i)")
  fix eng :: OperationEngine and expression :: string and i j :: nat
    and tokens tokens' :: "Token list" and st :: "nat \<times> Token list"
  assume "i < length expression" and "tokenise_step eng expression i tokens = Inr st"
    and "(j, tokens') = st"
  then have "i < j"
    using tokenise_step_advances [of eng expression i tokens j tokens'] by simp
  with \<open>i < length expression\<close>
  show "((eng, expression, j, tokens'), eng, expression, i, tokens)
      \<in> measure (\<lambda>(eng, expression, i, tokens). length expression - i)"
    by simp
qed simp

declare tokenise_loop.simps [simp del]

text \<open>
  The state at the head of the outer loop after \<open>k\<close> rounds, starting from cursor \<open>0\<close>
  and no tokens: the cursors the tokeniser reaches are the ones this function returns.
\<close>

fun tokenise_rounds ::
  "OperationEngine \<Rightarrow> string \<Rightarrow> nat \<Rightarrow> error + (nat \<times> Token list)" where
  "tokenise_rounds eng expression 0 = Inr (0, [])"
| "tokenise_rounds eng expression (Suc k) =
     (case tokenise_rounds eng expression k of
        Inl e \<Rightarrow> Inl e
      | Inr (i, tokens) \<Rightarrow>
          if i < length expression then tokenise_step eng expression i tokens
          else Inr (i, tokens))"

definition tokenise :: "OperationEngine \<Rightarrow> string \<Rightarrow> error + Token list" where
  "tokenise eng expression = tokenise_loop eng expression 0 []"

subsection \<open>parser.py: shunting-yard conversion\<close>

text \<open>
  The loop \<^verbatim>\<open>while ops and isinstance(ops[-1], OperatorToken)\<close> that runs when the operator
  \<open>cur\<close> arrives. Both registry lookups are made in each round, the one of the stack top
  first; either may raise \<^verbatim>\<open>KeyError\<close>.
\<close>

function pop_by_precedence ::
  "OperationEngine \<Rightarrow> string \<Rightarrow> Token list \<Rightarrow> Token list \<Rightarrow> error + (Token list \<times> Token list)" where
  "pop_by_precedence eng cur output ops =
     (if ops \<noteq> [] \<and> is_OperatorToken (last ops) then
        (case last ops of
           OperatorToken top_symbol \<Rightarrow>
             (case get eng top_symbol of
                Inl e \<Rightarrow> Inl e
              | Inr top_op \<Rightarrow>
                  (case get eng cur of
                     Inl e \<Rightarrow> Inl e
                   | Inr cur_op \<Rightarrow>
                       if precedence top_op \<ge> precedence cur_op
                       then pop_by_precedence eng cur (output @ [last ops]) (butlast ops)
                       else Inr (output, ops)))
         | _ \<Rightarrow> Inr (output, ops))
      else Inr (output, ops))"
  by pat_completeness auto
termination
  by (relation "measure (\<lambda>(eng, cur, output, ops). length ops)") auto

declare pop_by_precedence.simps [simp del]

text \<open>The loop \<^verbatim>\<open>while ops and not isinstance(ops[-1], LeftParenToken)\<close> of a right parenthesis.\<close>

function pop_until_left_paren :: "Token list \<Rightarrow> Token list \<Rightarrow> Token list \<times> Token list" where
  "pop_until_left_paren output ops =
     (if ops \<noteq> [] \<and> \<not> is_LeftParenToken (last ops)
      then pop_until_left_paren (output @ [last ops]) (butlast ops)
      else (output, ops))"
  by pat_completeness auto
termination
  by (relation "measure (\<lambda>(output, ops). length ops)") auto

declare pop_until_left_paren.simps [simp del]

text \<open>The test \<^verbatim>\<open>prev is None or isinstance(prev, OperatorToken) or isinstance(prev, LeftParenToken)\<close>.\<close>

definition unary_position :: "Token option \<Rightarrow> bool" where
  "unary_position prev =
     (case prev of None \<Rightarrow> True | Some p \<Rightarrow> is_OperatorToken p \<or> is_LeftParenToken p)"

text \<open>One round of \<^verbatim>\<open>for token in tokens\<close>; the state is \<open>(output, ops, prev)\<close>.\<close>

type_synonym rpn_state = "Token list \<times> Token list \<times> Token option"

fun rpn_step :: "OperationEngine \<Rightarrow> Token \<Rightarrow> rpn_state \<Rightarrow> error + rpn_state" where
  "rpn_step eng (NumberToken v) (output, ops, prev) =
     Inr (output @ [NumberToken v], ops, Some (NumberToken v))"
| "rpn_step eng (OperatorToken s) (output, ops, prev) =
     (case pop_by_precedence eng s
             (if s = ''-'' \<and> unary_position prev then output @ [NumberToken 0] else output) ops of
        Inl e \<Rightarrow> Inl e
      | Inr (output', ops') \<Rightarrow> Inr (output', ops' @ [OperatorToken s], Some (OperatorToken s)))"
| "rpn_step eng LeftParenToken (output, ops, prev) =
     Inr (output, ops @ [LeftParenToken], Some LeftParenToken)"
| "rpn_step eng RightParenToken (output, ops, prev) =
     (case pop_until_left_paren output ops of
        (output', ops') \<Rightarrow>
          if ops' = [] \<or> \<not> is_LeftParenToken (last ops') then Inl MismatchedParentheses
          else Inr (output', butlast ops', Some RightParenToken))"

fun rpn_loop :: "OperationEngine \<Rightarrow> Token list \<Rightarrow> rpn_state \<Rightarrow> error + rpn_state" where
  "rpn_loop eng [] st = Inr st"
| "rpn_loop eng (token # tokens) st =
     (case rpn_step eng token st of Inl e \<Rightarrow> Inl e | Inr st' \<Rightarrow> rpn_loop eng tokens st')"

text \<open>The final \<^verbatim>\<open>while ops\<close> loop that drains the stack.\<close>

function drain :: "Token list \<Rightarrow> Token list \<Rightarrow> error + Token list" where
  "drain output ops =
     (if ops \<noteq> [] then
        (if is_LeftParenToken (last ops) then Inl MismatchedParentheses
         else drain (output @ [last ops]) (butlast ops))
      else Inr output)"
  by pat_completeness auto
termination
  by (relation "measure (\<lambda>(output, ops). length ops)") auto

declare drain.simps [simp del]

definition to_rpn :: "OperationEngine \<Rightarrow> Token list \<Rightarrow> error + Token list" where
  "to_rpn eng tokens =
     (case rpn_loop eng tokens ([], [], None) of
        Inl e \<Rightarrow> Inl e
      | Inr (output, ops, prev) \<Rightarrow> drain output ops)"

subsection \<open>parser.py: postfix evaluation\<close>

text \<open>One round of \<^verbatim>\<open>for token in tokens\<close> of \<^verbatim>\<open>_eval_rpn\<close>; the state is the value stack.\<close>

fun eval_step :: "OperationEngine \<Rightarrow> Token \<Rightarrow> Number list \<Rightarrow> error + Number list" where
  "eval_step eng (NumberToken v) stack = Inr (stack @ [v])"
| "eval_step eng (OperatorToken s) stack =
     (if length stack < 2 then Inl InsufficientOperands
      else
        (case apply_op eng s (last (butlast stack)) (last stack) of
           Inl e \<Rightarrow> Inl e
         | Inr res \<Rightarrow> Inr (butlast (butlast stack) @ [res])))"
| "eval_step eng LeftParenToken stack = Inl InvalidToken"
| "eval_step eng RightParenToken stack = Inl InvalidToken"

fun eval_loop :: "OperationEngine \<Rightarrow> Token list \<Rightarrow> Number list \<Rightarrow> error + Number list" where
  "eval_loop eng [] stack = Inr stack"
| "eval_loop eng (token # tokens) stack =
     (case eval_step eng token stack of Inl e \<Rightarrow> Inl e | Inr stack' \<Rightarrow> eval_loop eng tokens stack')"

text \<open>
  \<^verbatim>\<open>_eval_rpn\<close> ends with \<^verbatim>\<open>return stack\<close>: what it hands back is the value stack itself,
  a list, not its only element.
\<close>

definition eval_rpn :: "OperationEngine \<Rightarrow> Token list \<Rightarrow> error + pyval" where
  "eval_rpn eng tokens =
     (case eval_loop eng tokens [] of
        Inl e \<Rightarrow> Inl e
      | Inr stack \<Rightarrow> if length stack \<noteq> 1 then Inl InvalidExpression else Inr (PyList stack))"

subsection \<open>parser.py: the entry point\<close>

definition evaluate :: "OperationEngine \<Rightarrow> string \<Rightarrow> error + pyval" where
  "evaluate eng expression =
     (case tokenise eng expression of
        Inl e \<Rightarrow> Inl e
      | Inr tokens \<Rightarrow>
          (case to_rpn eng tokens of
             Inl e \<Rightarrow> Inl e
           | Inr rpn \<Rightarrow> eval_rpn eng rpn))"

text \<open>\<^verbatim>\<open>ExpressionParser.__init__\<close>: \<^verbatim>\<open>self.engine = engine or OperationEngine()\<close>.\<close>

definition ExpressionParser_init :: "OperationEngine option \<Rightarrow> error + OperationEngine" where
  "ExpressionParser_init engine =
     (case engine of None \<Rightarrow> OperationEngine_init | Some e \<Rightarrow> Inr e)"

text \<open>\<^verbatim>\<open>eval_expr\<close> of \<^verbatim>\<open>tests/test_parser.py\<close>: \<^verbatim>\<open>ExpressionParser().evaluate(expr)\<close>.\<close>

definition eval_expr :: "string \<Rightarrow> error + pyval" where
  "eval_expr expr =
     (case ExpressionParser_init None of Inl e \<Rightarrow> Inl e | Inr eng \<Rightarrow> evaluate eng expr)"

subsection \<open>The popping rule in the specification's words\<close>

text \<open>
  A stack entry is popped when the operator \<open>cur\<close> arrives if it is an operator whose
  precedence is greater than or equal to the precedence of \<open>cur\<close>. This predicate is
  written from the specification, to be compared with \<open>pop_by_precedence\<close>.
\<close>

definition outranks :: "OperationEngine \<Rightarrow> string \<Rightarrow> Token \<Rightarrow> bool" where
  "outranks eng cur t =
     (case t of
        OperatorToken s \<Rightarrow>
          (case operations eng s of
             None \<Rightarrow> False
           | Some top_op \<Rightarrow>
               (case operations eng cur of
                  None \<Rightarrow> False
                | Some cur_op \<Rightarrow> precedence top_op \<ge> precedence cur_op))
      | _ \<Rightarrow> False)"

section \<open>Properties\<close>

subsection \<open>The default registry\<close>

lemma OperationEngine_init_eq: "OperationEngine_init = Inr default_engine"
  by (simp add: OperationEngine_init_def register_default_operations_def register_def
      default_engine_def)

lemma get_default:
  "get default_engine ''+'' = Inr \<lparr>symbol = ''+'', func = (\<lambda>a b. Returns (a + b)), precedence = 1, associative = True\<rparr>"
  "get default_engine ''-'' = Inr \<lparr>symbol = ''-'', func = (\<lambda>a b. Returns (a - b)), precedence = 1, associative = True\<rparr>"
  "get default_engine ''*'' = Inr \<lparr>symbol = ''*'', func = (\<lambda>a b. Returns (a * b)), precedence = 2, associative = True\<rparr>"
  "get default_engine ''/'' = Inr \<lparr>symbol = ''/'', func = safe_divide, precedence = 2, associative = True\<rparr>"
  "get default_engine ''^'' = Inr \<lparr>symbol = ''^'', func = py_pow, precedence = 3, associative = True\<rparr>"
  by (simp_all add: get_def default_engine_def)

lemma has_default_iff:
  "has default_engine s \<longleftrightarrow> s \<in> {''+'', ''-'', ''*'', ''/'', ''^''}"
  by (simp add: has_def default_engine_def)

lemma apply_default:
  "apply_op default_engine ''+'' a b = Inr (a + b)"
  "apply_op default_engine ''-'' a b = Inr (a - b)"
  "apply_op default_engine ''*'' a b = Inr (a * b)"
  "apply_op default_engine ''/'' a b = (if b = 0 then Inl ArithmeticFailure else Inr (a / b))"
  by (simp_all add: apply_op_def get_default call_def safe_divide_def)


lemma eval_expr_default: "eval_expr expr = evaluate default_engine expr"
  by (simp add: eval_expr_def ExpressionParser_init_def OperationEngine_init_eq)

subsection \<open>The registry\<close>

text \<open>
  C8. \<open>register\<close> fails, and then with \<open>InvalidOperatorSymbol\<close>, if and only if the symbol
  is empty or longer than one character. For a symbol of exactly one character it succeeds
  whatever the registry held before: afterwards \<open>has\<close> is true for the symbol, \<open>get\<close>
  returns the entry just registered (replacing an earlier one with that symbol), and every
  other symbol is left as it was.
\<close>

theorem register_single_character:
  "(register eng smb f prec assoc = Inl InvalidOperatorSymbol \<longleftrightarrow> smb = [] \<or> 1 < length smb) \<and>
   ((\<exists>e. register eng smb f prec assoc = Inl e) \<longleftrightarrow> smb = [] \<or> 1 < length smb) \<and>
   (length smb = 1 \<longrightarrow>
      (\<exists>eng'. register eng smb f prec assoc = Inr eng' \<and>
         has eng' smb \<and>
         get eng' smb = Inr \<lparr>symbol = smb, func = f, precedence = prec, associative = assoc\<rparr> \<and>
         (\<forall>other. other \<noteq> smb \<longrightarrow> operations eng' other = operations eng other)))"
proof -
  have len: "length smb \<noteq> 1 \<longleftrightarrow> smb = [] \<or> 1 < length smb"
    by (cases smb) auto
  show ?thesis
    using len by (auto simp: register_def has_def get_def)
qed

theorem register_single_character_witness:
  "length ''+'' = 1 \<and>
   (\<exists>eng'. register default_engine ''+'' safe_divide 7 True = Inr eng' \<and>
      has eng' ''+'' \<and>
      get eng' ''+'' = Inr \<lparr>symbol = ''+'', func = safe_divide, precedence = 7, associative = True\<rparr> \<and>
      (\<forall>other. other \<noteq> ''+'' \<longrightarrow> operations eng' other = operations default_engine other)) \<and>
   register default_engine ''mod'' safe_divide 2 True = Inl InvalidOperatorSymbol \<and>
   register default_engine [] safe_divide 2 True = Inl InvalidOperatorSymbol"
  using register_single_character [of default_engine "''+''" safe_divide 7 True]
    register_single_character [of default_engine "''mod''" safe_divide 2 True]
    register_single_character [of default_engine "[]" safe_divide 2 True]
  by simp

subsection \<open>Division\<close>

text \<open>
  C6. With the default registry, applying \<^verbatim>\<open>/\<close> fails if and only if the right operand is
  zero, and the failure is \<open>ArithmeticFailure\<close>; for a nonzero right operand the result is
  the quotient. \<open>apply_op\<close> hands on a failure of any operator function as
  \<open>ArithmeticFailure\<close>, and \<^verbatim>\<open>evaluate("1 / 0")\<close> fails with that kind.
\<close>

theorem default_division_by_zero:
  "(safe_divide a b = Raises \<longleftrightarrow> b = 0) \<and>
   (apply_op default_engine ''/'' a b = Inl ArithmeticFailure \<longleftrightarrow> b = 0) \<and>
   ((\<exists>e. apply_op default_engine ''/'' a b = Inl e) \<longleftrightarrow> b = 0) \<and>
   (b \<noteq> 0 \<longrightarrow> apply_op default_engine ''/'' a b = Inr (a / b)) \<and>
   (\<forall>eng smb op. get eng smb = Inr op \<and> call op a b = Raises
       \<longrightarrow> apply_op eng smb a b = Inl ArithmeticFailure) \<and>
   eval_expr ''1 / 0'' = Inl ArithmeticFailure"
proof -
  have tokens: "tokenise default_engine ''1 / 0'' =
      Inr [NumberToken 1, OperatorToken ''/'', NumberToken 0]"
    by (simp add: tokenise_def tokenise_loop.simps tokenise_step_def starts_number_def
        scan_number.simps isspace_def isdigit_def ascii_digit_def py_float_def digits_value_def
        has_default_iff Let_def)
  have rpn: "to_rpn default_engine [NumberToken 1, OperatorToken ''/'', NumberToken 0] =
      Inr [NumberToken 1, NumberToken 0, OperatorToken ''/'']"
    by (simp add: to_rpn_def pop_by_precedence.simps drain.simps)
  have "eval_rpn default_engine [NumberToken 1, NumberToken 0, OperatorToken ''/''] =
      Inl ArithmeticFailure"
    by (simp add: eval_rpn_def apply_default)
  with tokens rpn have "eval_expr ''1 / 0'' = Inl ArithmeticFailure"
    by (simp add: eval_expr_default evaluate_def)
  moreover have "\<forall>eng smb op. get eng smb = Inr op \<and> call op a b = Raises
       \<longrightarrow> apply_op eng smb a b = Inl ArithmeticFailure"
    by (simp add: apply_op_def)
  ultimately show ?thesis
    by (simp add: apply_default safe_divide_def)
qed

theorem default_division_by_zero_witness:
  "(4::real) \<noteq> 0 \<and> apply_op default_engine ''/'' 8 4 = Inr 2 \<and>
   get default_engine ''/'' = Inr \<lparr>symbol = ''/'', func = safe_divide, precedence = 2, associative = True\<rparr> \<and>
   call \<lparr>symbol = ''/'', func = safe_divide, precedence = 2, associative = True\<rparr> 1 0 = Raises \<and>
   apply_op default_engine ''/'' 1 0 = Inl ArithmeticFailure"
  using default_division_by_zero [of 8 4] default_division_by_zero [of 1 0]
  by (simp add: get_default call_def safe_divide_def)

subsection \<open>Postfix evaluation\<close>

lemma apply_op_errors:
  "apply_op eng s a b = Inl e \<Longrightarrow> e = UnknownOperator s \<or> e = ArithmeticFailure \<or> e = NonRealResult"
  by (auto simp: apply_op_def get_def split: option.splits sum.splits outcome.splits)

lemma eval_step_errors:
  "eval_step eng t stack = Inl e \<Longrightarrow>
     e = InsufficientOperands \<or> e = InvalidToken \<or> e = ArithmeticFailure \<or> e = NonRealResult
       \<or> (\<exists>s. e = UnknownOperator s)"
  by (cases t) (auto split: if_splits sum.splits dest: apply_op_errors)

lemma eval_loop_errors:
  "eval_loop eng tokens stack = Inl e \<Longrightarrow>
     e = InsufficientOperands \<or> e = InvalidToken \<or> e = ArithmeticFailure \<or> e = NonRealResult
       \<or> (\<exists>s. e = UnknownOperator s)"
proof (induction tokens arbitrary: stack)
  case Nil
  then show ?case by simp
next
  case (Cons t ts)
  show ?case
  proof (cases "eval_step eng t stack")
    case (Inl x)
    with Cons.prems have "x = e" by simp
    with Inl eval_step_errors show ?thesis by blast
  next
    case (Inr st)
    with Cons.prems have "eval_loop eng ts st = Inl e" by simp
    then show ?thesis by (rule Cons.IH)
  qed
qed

lemma eval_loop_append:
  "eval_loop eng (xs @ ys) stack =
     (case eval_loop eng xs stack of Inl e \<Rightarrow> Inl e | Inr st \<Rightarrow> eval_loop eng ys st)"
  by (induction xs arbitrary: stack) (auto split: sum.splits)

lemma eval_loop_numbers: "eval_loop eng (map NumberToken vs) stack = Inr (stack @ vs)"
  by (induction vs arbitrary: stack) auto

lemma tokenise_empty: "tokenise eng [] = Inr []"
  by (simp add: tokenise_def tokenise_loop.simps)

lemma to_rpn_empty: "to_rpn eng [] = Inr []"
  by (simp add: to_rpn_def drain.simps)

text \<open>
  C4. \<open>eval_rpn\<close> fails with \<open>InvalidExpression\<close> exactly when the loop over the tokens
  ends without an error and leaves a value stack whose length is not one. That is the case
  for no tokens at all (hence for the empty input string), for any sequence of numbers
  other than a single one, and for a sequence that leaves a value and is followed by one
  more number.
\<close>

theorem eval_rpn_invalid_expression:
  "(eval_rpn eng tokens = Inl InvalidExpression \<longleftrightarrow>
      (\<exists>stack. eval_loop eng tokens [] = Inr stack \<and> length stack \<noteq> 1)) \<and>
   eval_rpn eng [] = Inl InvalidExpression \<and>
   evaluate eng [] = Inl InvalidExpression \<and>
   (length vs \<noteq> 1 \<longrightarrow> eval_rpn eng (map NumberToken vs) = Inl InvalidExpression) \<and>
   (\<forall>stack. eval_loop eng tokens [] = Inr stack \<and> stack \<noteq> []
      \<longrightarrow> eval_rpn eng (tokens @ [NumberToken v]) = Inl InvalidExpression)"
proof -
  have iff: "eval_rpn eng tokens = Inl InvalidExpression \<longleftrightarrow>
      (\<exists>stack. eval_loop eng tokens [] = Inr stack \<and> length stack \<noteq> 1)"
  proof (cases "eval_loop eng tokens []")
    case (Inl e)
    with eval_loop_errors [of eng tokens "[]" e] have "e \<noteq> InvalidExpression" by auto
    with Inl show ?thesis by (simp add: eval_rpn_def)
  next
    case (Inr stack)
    then show ?thesis by (simp add: eval_rpn_def)
  qed
  have empty: "eval_rpn eng [] = Inl InvalidExpression"
    by (simp add: eval_rpn_def)
  have whole: "evaluate eng [] = Inl InvalidExpression"
    by (simp add: evaluate_def tokenise_empty to_rpn_empty empty)
  have numbers: "length vs \<noteq> 1 \<longrightarrow> eval_rpn eng (map NumberToken vs) = Inl InvalidExpression"
    by (simp add: eval_rpn_def eval_loop_numbers)
  have stray: "\<forall>stack. eval_loop eng tokens [] = Inr stack \<and> stack \<noteq> []
      \<longrightarrow> eval_rpn eng (tokens @ [NumberToken v]) = Inl InvalidExpression"
    by (simp add: eval_rpn_def eval_loop_append)
  from iff empty whole numbers stray show ?thesis by blast
qed

theorem eval_rpn_invalid_expression_witness:
  "eval_loop default_engine [NumberToken 1, NumberToken 2, OperatorToken ''+''] [] = Inr [3] \<and>
   [3::real] \<noteq> [] \<and>
   eval_rpn default_engine ([NumberToken 1, NumberToken 2, OperatorToken ''+''] @ [NumberToken 4])
     = Inl InvalidExpression \<and>
   length [1::real, 2] \<noteq> 1 \<and>
   eval_rpn default_engine (map NumberToken [1, 2]) = Inl InvalidExpression \<and>
   (\<exists>stack. eval_loop default_engine (map NumberToken [1, 2]) [] = Inr stack \<and> length stack \<noteq> 1)"
proof -
  have run: "eval_loop default_engine [NumberToken 1, NumberToken 2, OperatorToken ''+''] [] = Inr [3]"
    by (simp add: apply_default)
  show ?thesis
    using run
      eval_rpn_invalid_expression
        [of default_engine "[NumberToken 1, NumberToken 2, OperatorToken ''+'']" "[1, 2]" 4]
      eval_rpn_invalid_expression [of default_engine "map NumberToken [1, 2]" "[1, 2]" 4]
    by simp
qed

subsection \<open>The stack loops of the converter in closed form\<close>

lemma pop_until_left_paren_eq:
  "pop_until_left_paren out ops =
     (out @ takeWhile (\<lambda>t. \<not> is_LeftParenToken t) (rev ops),
      rev (dropWhile (\<lambda>t. \<not> is_LeftParenToken t) (rev ops)))"
proof (induction ops arbitrary: out rule: rev_induct)
  case Nil
  show ?case by (simp add: pop_until_left_paren.simps)
next
  case (snoc x xs)
  show ?case
    by (subst pop_until_left_paren.simps) (simp add: snoc.IH)
qed

lemma drain_eq:
  "drain out ops =
     (if \<exists>t\<in>set ops. is_LeftParenToken t then Inl MismatchedParentheses
      else Inr (out @ rev ops))"
proof (induction ops arbitrary: out rule: rev_induct)
  case Nil
  show ?case by (simp add: drain.simps)
next
  case (snoc x xs)
  show ?case
    by (subst drain.simps) (auto simp: snoc.IH)
qed

lemma pop_by_precedence_Inl:
  "pop_by_precedence eng cur out ops = Inl e \<Longrightarrow> \<exists>s. e = UnknownOperator s"
proof (induction ops arbitrary: out rule: rev_induct)
  case Nil
  then show ?case by (simp add: pop_by_precedence.simps)
next
  case (snoc x xs)
  from snoc.prems show ?case
    by (subst (asm) pop_by_precedence.simps)
      (auto simp: get_def split: Token.splits option.splits if_splits dest: snoc.IH)
qed

lemma pop_by_precedence_Inr:
  "pop_by_precedence eng cur out ops = Inr (out', ops') \<Longrightarrow>
     \<exists>popped. ops = ops' @ popped \<and> out' = out @ rev popped \<and>
       (\<forall>t\<in>set popped. is_OperatorToken t)"
proof (induction ops arbitrary: out rule: rev_induct)
  case Nil
  then show ?case by (simp add: pop_by_precedence.simps)
next
  case (snoc x xs)
  from snoc.prems show ?case
    by (subst (asm) pop_by_precedence.simps)
      (auto simp: get_def split: Token.splits option.splits if_splits dest!: snoc.IH)
qed

lemma rpn_loop_append:
  "rpn_loop eng (xs @ ys) st =
     (case rpn_loop eng xs st of Inl e \<Rightarrow> Inl e | Inr st' \<Rightarrow> rpn_loop eng ys st')"
  by (induction xs arbitrary: st) (auto split: sum.splits)

lemma rpn_step_mismatch:
  "rpn_step eng t (out, ops, prev) = Inl MismatchedParentheses \<longleftrightarrow>
     t = RightParenToken \<and> LeftParenToken \<notin> set ops"
proof (cases t)
  case (NumberToken v)
  then show ?thesis by simp
next
  case (OperatorToken s)
  then show ?thesis
    by (auto split: sum.splits dest: pop_by_precedence_Inl)
next
  case LeftParenToken
  then show ?thesis by simp
next
  case RightParenToken
  have "dropWhile (\<lambda>t. \<not> is_LeftParenToken t) (rev ops) = [] \<longleftrightarrow> LeftParenToken \<notin> set ops"
    by (auto simp: Token.is_LeftParenToken_def)
  moreover have "dropWhile (\<lambda>t. \<not> is_LeftParenToken t) (rev ops) \<noteq> [] \<Longrightarrow>
      is_LeftParenToken (hd (dropWhile (\<lambda>t. \<not> is_LeftParenToken t) (rev ops)))"
    using hd_dropWhile [of "\<lambda>t. \<not> is_LeftParenToken t" "rev ops"] by simp
  ultimately show ?thesis
    using RightParenToken by (auto simp: pop_until_left_paren_eq last_rev)
qed

lemma rpn_loop_mismatch:
  "rpn_loop eng tokens st = Inl MismatchedParentheses \<longleftrightarrow>
     (\<exists>pre post out ops prev. tokens = pre @ RightParenToken # post \<and>
        rpn_loop eng pre st = Inr (out, ops, prev) \<and> LeftParenToken \<notin> set ops)"
proof (induction tokens arbitrary: st)
  case Nil
  show ?case by simp
next
  case (Cons t ts)
  obtain out ops prev where st: "st = (out, ops, prev)"
    by (cases st) auto
  show ?case
  proof (cases "rpn_step eng t st")
    case (Inl e)
    have "(\<exists>pre post out' ops' prev'. t # ts = pre @ RightParenToken # post \<and>
        rpn_loop eng pre st = Inr (out', ops', prev') \<and> LeftParenToken \<notin> set ops')
        \<longleftrightarrow> t = RightParenToken \<and> LeftParenToken \<notin> set ops"
    proof
      assume "\<exists>pre post out' ops' prev'. t # ts = pre @ RightParenToken # post \<and>
        rpn_loop eng pre st = Inr (out', ops', prev') \<and> LeftParenToken \<notin> set ops'"
      then obtain pre post out' ops' prev' where
        split: "t # ts = pre @ RightParenToken # post" and
        run: "rpn_loop eng pre st = Inr (out', ops', prev')" and
        no: "LeftParenToken \<notin> set ops'"
        by blast
      show "t = RightParenToken \<and> LeftParenToken \<notin> set ops"
      proof (cases pre)
        case Nil
        with split run no st show ?thesis by simp
      next
        case (Cons p ps)
        with split have "p = t" by simp
        with Cons run Inl show ?thesis by simp
      qed
    next
      assume "t = RightParenToken \<and> LeftParenToken \<notin> set ops"
      then have "t # ts = [] @ RightParenToken # ts \<and>
        rpn_loop eng [] st = Inr (out, ops, prev) \<and> LeftParenToken \<notin> set ops"
        using st by simp
      then show "\<exists>pre post out' ops' prev'. t # ts = pre @ RightParenToken # post \<and>
        rpn_loop eng pre st = Inr (out', ops', prev') \<and> LeftParenToken \<notin> set ops'"
        by blast
    qed
    moreover have "rpn_loop eng (t # ts) st = Inl MismatchedParentheses \<longleftrightarrow>
        t = RightParenToken \<and> LeftParenToken \<notin> set ops"
      using Inl rpn_step_mismatch [of eng t out ops prev] st by auto
    ultimately show ?thesis by simp
  next
    case (Inr st')
    have no_now: "\<not> (t = RightParenToken \<and> LeftParenToken \<notin> set ops)"
      using Inr rpn_step_mismatch [of eng t out ops prev] st by auto
    have "(\<exists>pre post out' ops' prev'. t # ts = pre @ RightParenToken # post \<and>
        rpn_loop eng pre st = Inr (out', ops', prev') \<and> LeftParenToken \<notin> set ops')
        \<longleftrightarrow> (\<exists>pre post out' ops' prev'. ts = pre @ RightParenToken # post \<and>
        rpn_loop eng pre st' = Inr (out', ops', prev') \<and> LeftParenToken \<notin> set ops')"
    proof
      assume "\<exists>pre post out' ops' prev'. t # ts = pre @ RightParenToken # post \<and>
        rpn_loop eng pre st = Inr (out', ops', prev') \<and> LeftParenToken \<notin> set ops'"
      then obtain pre post out' ops' prev' where
        split: "t # ts = pre @ RightParenToken # post" and
        run: "rpn_loop eng pre st = Inr (out', ops', prev')" and
        no: "LeftParenToken \<notin> set ops'"
        by blast
      show "\<exists>pre post out' ops' prev'. ts = pre @ RightParenToken # post \<and>
        rpn_loop eng pre st' = Inr (out', ops', prev') \<and> LeftParenToken \<notin> set ops'"
      proof (cases pre)
        case Nil
        with split run no st no_now show ?thesis by simp
      next
        case (Cons p ps)
        with split have "p = t" and "ts = ps @ RightParenToken # post" by simp_all
        moreover from Cons \<open>p = t\<close> run Inr have "rpn_loop eng ps st' = Inr (out', ops', prev')"
          by simp
        ultimately show ?thesis using no by blast
      qed
    next
      assume "\<exists>pre post out' ops' prev'. ts = pre @ RightParenToken # post \<and>
        rpn_loop eng pre st' = Inr (out', ops', prev') \<and> LeftParenToken \<notin> set ops'"
      then obtain pre post out' ops' prev' where
        split: "ts = pre @ RightParenToken # post" and
        run: "rpn_loop eng pre st' = Inr (out', ops', prev')" and
        no: "LeftParenToken \<notin> set ops'"
        by blast
      from split have "t # ts = (t # pre) @ RightParenToken # post" by simp
      moreover from run Inr have "rpn_loop eng (t # pre) st = Inr (out', ops', prev')" by simp
      ultimately show "\<exists>pre post out' ops' prev'. t # ts = pre @ RightParenToken # post \<and>
        rpn_loop eng pre st = Inr (out', ops', prev') \<and> LeftParenToken \<notin> set ops'"
        using no by blast
    qed
    moreover have "rpn_loop eng (t # ts) st = rpn_loop eng ts st'"
      using Inr by simp
    ultimately show ?thesis using Cons.IH [of st'] by simp
  qed
qed


lemmas tokenise_eval = tokenise_def tokenise_loop.simps tokenise_step_def starts_number_def
  scan_number.simps isspace_def isdigit_def ascii_digit_def py_float_def digits_value_def
  has_default_iff Let_def

lemmas to_rpn_eval = to_rpn_def pop_by_precedence.simps pop_until_left_paren.simps drain.simps
  unary_position_def get_default

subsection \<open>Mismatched parentheses\<close>

text \<open>
  C5. \<open>to_rpn\<close> fails with \<open>MismatchedParentheses\<close> in exactly two situations: the loop
  over the tokens comes to a right parenthesis while no left parenthesis is on the operator
  stack (the stack is then emptied without finding one), or the loop ends with a left
  parenthesis still on the stack. With the default registry \<^verbatim>\<open>evaluate("(1 + 2")\<close> and
  \<^verbatim>\<open>evaluate("1 + 2)")\<close> both fail with that kind.
\<close>

theorem to_rpn_mismatched_parentheses:
  "(to_rpn eng tokens = Inl MismatchedParentheses \<longleftrightarrow>
      (\<exists>pre post out ops prev. tokens = pre @ RightParenToken # post \<and>
         rpn_loop eng pre ([], [], None) = Inr (out, ops, prev) \<and> LeftParenToken \<notin> set ops) \<or>
      (\<exists>out ops prev. rpn_loop eng tokens ([], [], None) = Inr (out, ops, prev) \<and>
         LeftParenToken \<in> set ops)) \<and>
   eval_expr ''(1 + 2'' = Inl MismatchedParentheses \<and>
   eval_expr ''1 + 2)'' = Inl MismatchedParentheses"
proof -
  have lp: "(\<exists>t\<in>set ops. is_LeftParenToken t) \<longleftrightarrow> LeftParenToken \<in> set ops" for ops
    by (auto simp: Token.is_LeftParenToken_def)
  have general: "to_rpn eng tokens = Inl MismatchedParentheses \<longleftrightarrow>
      (\<exists>pre post out ops prev. tokens = pre @ RightParenToken # post \<and>
         rpn_loop eng pre ([], [], None) = Inr (out, ops, prev) \<and> LeftParenToken \<notin> set ops) \<or>
      (\<exists>out ops prev. rpn_loop eng tokens ([], [], None) = Inr (out, ops, prev) \<and>
         LeftParenToken \<in> set ops)"
  proof (cases "rpn_loop eng tokens ([], [], None)")
    case (Inl e)
    then have "to_rpn eng tokens = Inl MismatchedParentheses \<longleftrightarrow> e = MismatchedParentheses"
      by (simp add: to_rpn_def)
    with Inl rpn_loop_mismatch [of eng tokens "([], [], None)"] show ?thesis
      by auto
  next
    case (Inr st)
    obtain out ops prev where st: "st = (out, ops, prev)"
      by (cases st) auto
    from Inr st have "to_rpn eng tokens = Inl MismatchedParentheses \<longleftrightarrow> LeftParenToken \<in> set ops"
      by (simp add: to_rpn_def drain_eq lp)
    moreover from Inr rpn_loop_mismatch [of eng tokens "([], [], None)"]
    have "\<not> (\<exists>pre post out ops prev. tokens = pre @ RightParenToken # post \<and>
         rpn_loop eng pre ([], [], None) = Inr (out, ops, prev) \<and> LeftParenToken \<notin> set ops)"
      by simp
    moreover from Inr st
    have "(\<exists>out ops prev. rpn_loop eng tokens ([], [], None) = Inr (out, ops, prev) \<and>
         LeftParenToken \<in> set ops) \<longleftrightarrow> LeftParenToken \<in> set ops"
      by simp
    ultimately show ?thesis by blast
  qed
  have "tokenise default_engine ''(1 + 2'' =
      Inr [LeftParenToken, NumberToken 1, OperatorToken ''+'', NumberToken 2]"
    by (simp add: tokenise_eval)
  moreover have "to_rpn default_engine
      [LeftParenToken, NumberToken 1, OperatorToken ''+'', NumberToken 2] = Inl MismatchedParentheses"
    by (simp add: to_rpn_eval)
  ultimately have unclosed: "eval_expr ''(1 + 2'' = Inl MismatchedParentheses"
    by (simp add: eval_expr_default evaluate_def)
  have "tokenise default_engine ''1 + 2)'' =
      Inr [NumberToken 1, OperatorToken ''+'', NumberToken 2, RightParenToken]"
    by (simp add: tokenise_eval)
  moreover have "to_rpn default_engine
      [NumberToken 1, OperatorToken ''+'', NumberToken 2, RightParenToken] = Inl MismatchedParentheses"
    by (simp add: to_rpn_eval)
  ultimately have unopened: "eval_expr ''1 + 2)'' = Inl MismatchedParentheses"
    by (simp add: eval_expr_default evaluate_def)
  from general unclosed unopened show ?thesis by blast
qed

theorem to_rpn_mismatched_parentheses_witness:
  "rpn_loop default_engine [NumberToken 1, OperatorToken ''+'', NumberToken 2] ([], [], None) =
     Inr ([NumberToken 1, NumberToken 2], [OperatorToken ''+''], Some (NumberToken 2)) \<and>
   LeftParenToken \<notin> set [OperatorToken ''+''] \<and>
   to_rpn default_engine ([NumberToken 1, OperatorToken ''+'', NumberToken 2] @ RightParenToken # [])
     = Inl MismatchedParentheses \<and>
   rpn_loop default_engine [LeftParenToken, NumberToken 1] ([], [], None) =
     Inr ([NumberToken 1], [LeftParenToken], Some (NumberToken 1)) \<and>
   LeftParenToken \<in> set [LeftParenToken] \<and>
   to_rpn default_engine [LeftParenToken, NumberToken 1] = Inl MismatchedParentheses"
proof -
  have run1: "rpn_loop default_engine [NumberToken 1, OperatorToken ''+'', NumberToken 2] ([], [], None) =
     Inr ([NumberToken 1, NumberToken 2], [OperatorToken ''+''], Some (NumberToken 2))"
    by (simp add: to_rpn_eval)
  have run2: "rpn_loop default_engine [LeftParenToken, NumberToken 1] ([], [], None) =
     Inr ([NumberToken 1], [LeftParenToken], Some (NumberToken 1))"
    by simp
  have "[NumberToken 1, OperatorToken ''+'', NumberToken 2] @ RightParenToken # [] =
       [NumberToken 1, OperatorToken ''+'', NumberToken 2] @ RightParenToken # [] \<and>
     rpn_loop default_engine [NumberToken 1, OperatorToken ''+'', NumberToken 2] ([], [], None) =
       Inr ([NumberToken 1, NumberToken 2], [OperatorToken ''+''], Some (NumberToken 2)) \<and>
     LeftParenToken \<notin> set [OperatorToken ''+'']"
    using run1 by simp
  then have "\<exists>pre post out ops prev.
     [NumberToken 1, OperatorToken ''+'', NumberToken 2] @ RightParenToken # [] =
       pre @ RightParenToken # post \<and>
     rpn_loop default_engine pre ([], [], None) = Inr (out, ops, prev) \<and>
     LeftParenToken \<notin> set ops"
    by (intro exI)
  then have first: "to_rpn default_engine ([NumberToken 1, OperatorToken ''+'', NumberToken 2] @ RightParenToken # [])
     = Inl MismatchedParentheses"
    using to_rpn_mismatched_parentheses
        [of default_engine "[NumberToken 1, OperatorToken ''+'', NumberToken 2] @ RightParenToken # []"]
    by (simp only: simp_thms)
  have second: "to_rpn default_engine [LeftParenToken, NumberToken 1] = Inl MismatchedParentheses"
    using run2 to_rpn_mismatched_parentheses [of default_engine "[LeftParenToken, NumberToken 1]"]
    by simp
  from run1 run2 first second show ?thesis by simp
qed

subsection \<open>Shape of the postfix sequence\<close>

lemma rpn_step_shape:
  assumes "rpn_step eng t (out, ops, prev) = Inr (out', ops', prev')"
    and "\<forall>x\<in>set out. is_NumberToken x \<or> is_OperatorToken x"
    and "\<forall>x\<in>set ops. is_OperatorToken x \<or> is_LeftParenToken x"
  shows "(\<forall>x\<in>set out'. is_NumberToken x \<or> is_OperatorToken x) \<and>
         (\<forall>x\<in>set ops'. is_OperatorToken x \<or> is_LeftParenToken x)"
proof (cases t)
  case (NumberToken v)
  with assms show ?thesis by auto
next
  case (OperatorToken s)
  with assms obtain o1 p1 where
    pop: "pop_by_precedence eng s
            (if s = ''-'' \<and> unary_position prev then out @ [NumberToken 0] else out) ops = Inr (o1, p1)"
    and res: "out' = o1" "ops' = p1 @ [OperatorToken s]"
    by (auto split: sum.splits)
  from pop_by_precedence_Inr [OF pop] obtain popped where
    "ops = p1 @ popped" and
    "o1 = (if s = ''-'' \<and> unary_position prev then out @ [NumberToken 0] else out) @ rev popped" and
    "\<forall>x\<in>set popped. is_OperatorToken x"
    by blast
  with assms(2,3) res show ?thesis by (auto split: if_splits)
next
  case LeftParenToken
  with assms show ?thesis by auto
next
  case RightParenToken
  with assms have res: "out' = out @ takeWhile (\<lambda>t. \<not> is_LeftParenToken t) (rev ops)"
      "ops' = butlast (rev (dropWhile (\<lambda>t. \<not> is_LeftParenToken t) (rev ops)))"
    by (auto simp: pop_until_left_paren_eq split: if_splits)
  have "\<forall>x\<in>set (takeWhile (\<lambda>t. \<not> is_LeftParenToken t) (rev ops)). is_OperatorToken x"
  proof
    fix x
    assume "x \<in> set (takeWhile (\<lambda>t. \<not> is_LeftParenToken t) (rev ops))"
    then have "x \<in> set (rev ops)" and "\<not> is_LeftParenToken x"
      by (auto dest: set_takeWhileD)
    with assms(3) show "is_OperatorToken x" by auto
  qed
  moreover have "set ops' \<subseteq> set ops"
  proof
    fix x
    assume "x \<in> set ops'"
    then have "x \<in> set (rev (dropWhile (\<lambda>t. \<not> is_LeftParenToken t) (rev ops)))"
      unfolding res by (rule in_set_butlastD)
    then have "x \<in> set (rev ops)"
      by (auto dest: set_dropWhileD)
    then show "x \<in> set ops" by simp
  qed
  ultimately show ?thesis using assms(2,3) res(1) by auto
qed

lemma rpn_loop_shape:
  "rpn_loop eng tokens (out, ops, prev) = Inr (out', ops', prev') \<Longrightarrow>
   \<forall>x\<in>set out. is_NumberToken x \<or> is_OperatorToken x \<Longrightarrow>
   \<forall>x\<in>set ops. is_OperatorToken x \<or> is_LeftParenToken x \<Longrightarrow>
   (\<forall>x\<in>set out'. is_NumberToken x \<or> is_OperatorToken x) \<and>
   (\<forall>x\<in>set ops'. is_OperatorToken x \<or> is_LeftParenToken x)"
proof (induction tokens arbitrary: out ops prev)
  case Nil
  then show ?case by simp
next
  case (Cons t ts)
  from Cons.prems(1) obtain o1 p1 v1 where
    step: "rpn_step eng t (out, ops, prev) = Inr (o1, p1, v1)" and
    rest: "rpn_loop eng ts (o1, p1, v1) = Inr (out', ops', prev')"
    by (auto split: sum.splits)
  from rpn_step_shape [OF step Cons.prems(2,3)] Cons.IH [OF rest] show ?case
    by blast
qed

lemma eval_loop_no_invalid_token:
  "\<forall>x\<in>set tokens. is_NumberToken x \<or> is_OperatorToken x \<Longrightarrow>
   eval_loop eng tokens stack \<noteq> Inl InvalidToken"
proof (induction tokens arbitrary: stack)
  case Nil
  show ?case by simp
next
  case (Cons t ts)
  from Cons.prems have t: "is_NumberToken t \<or> is_OperatorToken t"
    and ts: "\<forall>x\<in>set ts. is_NumberToken x \<or> is_OperatorToken x"
    by simp_all
  from t have "eval_step eng t stack \<noteq> Inl InvalidToken"
    by (cases t) (auto split: sum.splits dest: apply_op_errors)
  with Cons.IH [OF ts] show ?case
    by (auto split: sum.splits)
qed

text \<open>
  C9. Whenever \<open>to_rpn\<close> succeeds, every token of the postfix sequence is a number or an
  operator, whatever the input tokens and the registry; so the evaluator, fed that
  sequence (with any registry and from any value stack), never takes its
  \<open>InvalidToken\<close> branch.
\<close>

theorem to_rpn_output_shape:
  assumes "to_rpn eng tokens = Inr rpn"
  shows "(\<forall>t\<in>set rpn. is_NumberToken t \<or> is_OperatorToken t) \<and>
         LeftParenToken \<notin> set rpn \<and> RightParenToken \<notin> set rpn \<and>
         (\<forall>eng' stack. eval_loop eng' rpn stack \<noteq> Inl InvalidToken) \<and>
         (\<forall>eng'. eval_rpn eng' rpn \<noteq> Inl InvalidToken)"
proof -
  from assms obtain out ops prev where
    run: "rpn_loop eng tokens ([], [], None) = Inr (out, ops, prev)" and
    dr: "drain out ops = Inr rpn"
    by (auto simp: to_rpn_def split: sum.splits)
  from rpn_loop_shape [OF run] have
    out: "\<forall>x\<in>set out. is_NumberToken x \<or> is_OperatorToken x" and
    ops: "\<forall>x\<in>set ops. is_OperatorToken x \<or> is_LeftParenToken x"
    by simp_all
  from dr have no_lp: "\<not> (\<exists>t\<in>set ops. is_LeftParenToken t)" and rpn: "rpn = out @ rev ops"
    by (auto simp: drain_eq split: if_splits)
  from out ops no_lp rpn have shape: "\<forall>t\<in>set rpn. is_NumberToken t \<or> is_OperatorToken t"
    by auto
  then have parens: "LeftParenToken \<notin> set rpn \<and> RightParenToken \<notin> set rpn"
    by auto
  from shape have loop: "\<forall>eng' stack. eval_loop eng' rpn stack \<noteq> Inl InvalidToken"
    by (simp add: eval_loop_no_invalid_token)
  then have "\<forall>eng'. eval_rpn eng' rpn \<noteq> Inl InvalidToken"
    by (auto simp: eval_rpn_def split: sum.splits)
  with shape parens loop show ?thesis by blast
qed

theorem to_rpn_output_shape_witness:
  "to_rpn default_engine
     [LeftParenToken, NumberToken 1, OperatorToken ''+'', NumberToken 2, RightParenToken,
      OperatorToken ''*'', NumberToken 3]
     = Inr [NumberToken 1, NumberToken 2, OperatorToken ''+'', NumberToken 3, OperatorToken ''*''] \<and>
   list_all (\<lambda>t. is_NumberToken t \<or> is_OperatorToken t)
     [NumberToken 1, NumberToken 2, OperatorToken ''+'', NumberToken 3, OperatorToken ''*''] \<and>
   LeftParenToken \<notin>
     set [NumberToken 1, NumberToken 2, OperatorToken ''+'', NumberToken 3, OperatorToken ''*''] \<and>
   eval_rpn default_engine
     [NumberToken 1, NumberToken 2, OperatorToken ''+'', NumberToken 3, OperatorToken ''*'']
     \<noteq> Inl InvalidToken"
proof -
  have conv: "to_rpn default_engine
     [LeftParenToken, NumberToken 1, OperatorToken ''+'', NumberToken 2, RightParenToken,
      OperatorToken ''*'', NumberToken 3]
     = Inr [NumberToken 1, NumberToken 2, OperatorToken ''+'', NumberToken 3, OperatorToken ''*'']"
    by (simp add: to_rpn_eval)
  from to_rpn_output_shape [OF conv] conv show ?thesis
    by (simp add: list_all_iff)
qed

subsection \<open>Unexpected characters\<close>

lemma tokenise_rounds_loop:
  "tokenise_rounds eng expression k = Inr (i, tokens) \<Longrightarrow>
   tokenise_loop eng expression 0 [] = tokenise_loop eng expression i tokens"
proof (induction k arbitrary: i tokens)
  case 0
  then show ?case by simp
next
  case (Suc k)
  from Suc.prems obtain i0 t0 where
    before: "tokenise_rounds eng expression k = Inr (i0, t0)" and
    step: "(if i0 < length expression then tokenise_step eng expression i0 t0 else Inr (i0, t0))
            = Inr (i, tokens)"
    by (auto split: sum.splits)
  from Suc.IH [OF before]
  have start: "tokenise_loop eng expression 0 [] = tokenise_loop eng expression i0 t0" .
  show ?case
  proof (cases "i0 < length expression")
    case True
    with step have "tokenise_step eng expression i0 t0 = Inr (i, tokens)" by simp
    with True have "tokenise_loop eng expression i0 t0 = tokenise_loop eng expression i tokens"
      by (subst tokenise_loop.simps) simp
    with start show ?thesis by simp
  next
    case False
    with step start show ?thesis by simp
  qed
qed

text \<open>
  C7. If the outer loop of the tokeniser arrives at a cursor \<open>i\<close> inside the input (after
  some number \<open>k\<close> of rounds) and the character there is no whitespace, does not start a
  number literal, is no parenthesis and is no registered operator symbol, then tokenising,
  and so \<open>evaluate\<close>, fails with \<open>UnexpectedCharacter\<close> carrying the index \<open>i\<close>, counted
  from zero, and that character. With the default registry \<^verbatim>\<open>evaluate("1 + a")\<close> reports
  position 4 and the character \<^verbatim>\<open>a\<close>.
\<close>

theorem tokenise_unexpected_character:
  assumes "tokenise_rounds eng expression k = Inr (i, tokens)"
    and "i < length expression"
    and "\<not> isspace (expression ! i)"
    and "\<not> starts_number expression i"
    and "expression ! i \<noteq> CHR ''(''" and "expression ! i \<noteq> CHR '')''"
    and "\<not> has eng [expression ! i]"
  shows "tokenise eng expression = Inl (UnexpectedCharacter i (expression ! i)) \<and>
         evaluate eng expression = Inl (UnexpectedCharacter i (expression ! i)) \<and>
         eval_expr ''1 + a'' = Inl (UnexpectedCharacter 4 CHR ''a'')"
proof -
  from assms(3-7) have "tokenise_step eng expression i tokens =
      Inl (UnexpectedCharacter i (expression ! i))"
    by (simp add: tokenise_step_def)
  with assms(2) have "tokenise_loop eng expression i tokens =
      Inl (UnexpectedCharacter i (expression ! i))"
    by (subst tokenise_loop.simps) simp
  with tokenise_rounds_loop [OF assms(1)]
  have tok: "tokenise eng expression = Inl (UnexpectedCharacter i (expression ! i))"
    by (simp add: tokenise_def)
  then have ev: "evaluate eng expression = Inl (UnexpectedCharacter i (expression ! i))"
    by (simp add: evaluate_def)
  have "tokenise default_engine ''1 + a'' = Inl (UnexpectedCharacter 4 CHR ''a'')"
    by (simp add: tokenise_eval)
  then have "eval_expr ''1 + a'' = Inl (UnexpectedCharacter 4 CHR ''a'')"
    by (simp add: eval_expr_default evaluate_def)
  with tok ev show ?thesis by simp
qed

theorem tokenise_unexpected_character_witness:
  "tokenise_rounds default_engine ''1 + a'' (Suc (Suc (Suc (Suc 0)))) =
     Inr (4, [NumberToken 1, OperatorToken ''+'']) \<and>
   4 < length ''1 + a'' \<and> ''1 + a'' ! 4 = CHR ''a'' \<and>
   \<not> isspace CHR ''a'' \<and> \<not> starts_number ''1 + a'' 4 \<and> \<not> has default_engine ''a'' \<and>
   tokenise default_engine ''1 + a'' = Inl (UnexpectedCharacter 4 CHR ''a'') \<and>
   evaluate default_engine ''1 + a'' = Inl (UnexpectedCharacter 4 CHR ''a'')"
proof -
  have rounds: "tokenise_rounds default_engine ''1 + a'' (Suc (Suc (Suc (Suc 0)))) =
     Inr (4, [NumberToken 1, OperatorToken ''+''])"
    by (simp add: tokenise_eval)
  have side: "4 < length ''1 + a''" "''1 + a'' ! 4 = CHR ''a''"
    "\<not> isspace (''1 + a'' ! 4)" "\<not> starts_number ''1 + a'' 4"
    "''1 + a'' ! 4 \<noteq> CHR ''(''" "''1 + a'' ! 4 \<noteq> CHR '')''"
    "\<not> has default_engine [''1 + a'' ! 4]"
    by (simp_all add: isspace_def isdigit_def starts_number_def has_default_iff)
  from tokenise_unexpected_character [OF rounds side(1) side(3-7)] rounds side
  show ?thesis by simp
qed

subsection \<open>Precedence and grouping\<close>

lemma pop_by_precedence_eq:
  assumes "has eng cur" and "\<forall>s. OperatorToken s \<in> set ops \<longrightarrow> has eng s"
  shows "pop_by_precedence eng cur out ops =
     Inr (out @ takeWhile (outranks eng cur) (rev ops),
          rev (dropWhile (outranks eng cur) (rev ops)))"
  using assms(2)
proof (induction ops arbitrary: out rule: rev_induct)
  case Nil
  show ?case by (simp add: pop_by_precedence.simps)
next
  case (snoc x xs)
  from snoc.prems have xs: "\<forall>s. OperatorToken s \<in> set xs \<longrightarrow> has eng s"
    by simp
  from assms(1) obtain cur_op where cur: "operations eng cur = Some cur_op"
    by (auto simp: has_def split: option.splits)
  show ?case
  proof (cases x)
    case (OperatorToken s)
    with snoc.prems have "has eng s" by simp
    then obtain top_op where top: "operations eng s = Some top_op"
      by (auto simp: has_def split: option.splits)
    have rank: "outranks eng cur x \<longleftrightarrow> precedence top_op \<ge> precedence cur_op"
      by (simp add: outranks_def OperatorToken cur top)
    show ?thesis
      using OperatorToken cur top rank snoc.IH [OF xs]
      by (subst pop_by_precedence.simps) (simp add: get_def)
  next
    case (NumberToken v)
    then have "\<not> outranks eng cur x" by (simp add: outranks_def)
    with NumberToken show ?thesis
      by (subst pop_by_precedence.simps) simp
  next
    case LeftParenToken
    then have "\<not> outranks eng cur x" by (simp add: outranks_def)
    with LeftParenToken show ?thesis
      by (subst pop_by_precedence.simps) simp
  next
    case RightParenToken
    then have "\<not> outranks eng cur x" by (simp add: outranks_def)
    with RightParenToken show ?thesis
      by (subst pop_by_precedence.simps) simp
  qed
qed

lemma two_operators_rpn:
  assumes "get eng s1 = Inr op1" and "get eng s2 = Inr op2"
    and "precedence op1 \<ge> precedence op2"
  shows "to_rpn eng [NumberToken a, OperatorToken s1, NumberToken b, OperatorToken s2, NumberToken c]
     = Inr [NumberToken a, NumberToken b, OperatorToken s1, NumberToken c, OperatorToken s2]"
  using assms
  by (simp add: to_rpn_def pop_by_precedence.simps pop_until_left_paren.simps drain.simps
      unary_position_def)

lemma two_operators_eval:
  "eval_rpn eng [NumberToken a, NumberToken b, OperatorToken s1, NumberToken c, OperatorToken s2] =
     (case apply_op eng s1 a b of
        Inl e \<Rightarrow> Inl e
      | Inr ab \<Rightarrow> (case apply_op eng s2 ab c of Inl e \<Rightarrow> Inl e | Inr r \<Rightarrow> Inr (PyList [r])))"
  by (simp add: eval_rpn_def split: sum.splits)

lemma apply_default_pow: "apply_op default_engine ''^'' 2 3 = Inr 8"
  "apply_op default_engine ''^'' 8 2 = Inr 64"
  by (simp_all add: apply_op_def get_default call_def py_pow_def)

text \<open>
  C2. When an operator arrives, the converter pops to the output exactly the longest run
  of entries at the top of the stack that are operators of precedence greater than or
  equal to its own, in the order popped. Hence two operators in a row, the first of
  precedence not below the second (in particular the same operator twice, \<^verbatim>\<open>^\<close>
  included), group to the left: \<open>a s1 b s2 c\<close> is computed as \<open>(a s1 b) s2 c\<close>. With the
  default registry \<^verbatim>\<open>2^3^2\<close> becomes the postfix sequence \<open>2 3 ^ 2 ^\<close> and the value
  computed is \<open>64\<close>, not \<open>512\<close>.
\<close>

theorem operators_group_left:
  "(has eng cur \<and> (\<forall>s. OperatorToken s \<in> set ops \<longrightarrow> has eng s) \<longrightarrow>
      pop_by_precedence eng cur out ops =
        Inr (out @ takeWhile (outranks eng cur) (rev ops),
             rev (dropWhile (outranks eng cur) (rev ops)))) \<and>
   (get eng s1 = Inr op1 \<and> get eng s2 = Inr op2 \<and> precedence op1 \<ge> precedence op2 \<longrightarrow>
      to_rpn eng [NumberToken a, OperatorToken s1, NumberToken b, OperatorToken s2, NumberToken c]
        = Inr [NumberToken a, NumberToken b, OperatorToken s1, NumberToken c, OperatorToken s2] \<and>
      eval_rpn eng [NumberToken a, NumberToken b, OperatorToken s1, NumberToken c, OperatorToken s2]
        = (case apply_op eng s1 a b of
             Inl e \<Rightarrow> Inl e
           | Inr ab \<Rightarrow>
               (case apply_op eng s2 ab c of Inl e \<Rightarrow> Inl e | Inr r \<Rightarrow> Inr (PyList [r])))) \<and>
   tokenise default_engine ''2^3^2'' =
     Inr [NumberToken 2, OperatorToken ''^'', NumberToken 3, OperatorToken ''^'', NumberToken 2] \<and>
   to_rpn default_engine
       [NumberToken 2, OperatorToken ''^'', NumberToken 3, OperatorToken ''^'', NumberToken 2]
     = Inr [NumberToken 2, NumberToken 3, OperatorToken ''^'', NumberToken 2, OperatorToken ''^''] \<and>
   eval_expr ''2^3^2'' = Inr (PyList [64]) \<and>
   eval_expr ''2^3^2'' \<noteq> Inr (PyList [512])"
proof -
  have tok: "tokenise default_engine ''2^3^2'' =
     Inr [NumberToken 2, OperatorToken ''^'', NumberToken 3, OperatorToken ''^'', NumberToken 2]"
    by (simp add: tokenise_eval)
  have rpn: "to_rpn default_engine
       [NumberToken 2, OperatorToken ''^'', NumberToken 3, OperatorToken ''^'', NumberToken 2]
     = Inr [NumberToken 2, NumberToken 3, OperatorToken ''^'', NumberToken 2, OperatorToken ''^'']"
    by (rule two_operators_rpn [OF get_default(5) get_default(5)]) simp
  have "eval_rpn default_engine
      [NumberToken 2, NumberToken 3, OperatorToken ''^'', NumberToken 2, OperatorToken ''^'']
     = Inr (PyList [64])"
    by (simp add: two_operators_eval apply_default_pow)
  with tok rpn have val: "eval_expr ''2^3^2'' = Inr (PyList [64])"
    by (simp add: eval_expr_default evaluate_def)
  then have "eval_expr ''2^3^2'' \<noteq> Inr (PyList [512])"
    by simp
  with tok rpn val show ?thesis
    using pop_by_precedence_eq [of eng cur ops out]
      two_operators_rpn [of eng s1 op1 s2 op2 a b c]
      two_operators_eval [of eng a b s1 c s2]
    by simp
qed

theorem operators_group_left_witness:
  "has default_engine ''+'' \<and> has default_engine ''-'' \<and> has default_engine ''*'' \<and>
   pop_by_precedence default_engine ''+'' [NumberToken 1]
       [OperatorToken ''+'', LeftParenToken, OperatorToken ''-'', OperatorToken ''*'']
     = Inr ([NumberToken 1, OperatorToken ''*'', OperatorToken ''-''],
            [OperatorToken ''+'', LeftParenToken]) \<and>
   get default_engine ''-'' = Inr \<lparr>symbol = ''-'', func = (\<lambda>a b. Returns (a - b)), precedence = 1, associative = True\<rparr> \<and>
   (1::int) \<ge> 1 \<and>
   to_rpn default_engine
       [NumberToken 7, OperatorToken ''-'', NumberToken 2, OperatorToken ''-'', NumberToken 1]
     = Inr [NumberToken 7, NumberToken 2, OperatorToken ''-'', NumberToken 1, OperatorToken ''-''] \<and>
   eval_rpn default_engine
       [NumberToken 7, NumberToken 2, OperatorToken ''-'', NumberToken 1, OperatorToken ''-'']
     = Inr (PyList [4])"
proof -
  have reg: "has default_engine ''+''"
    "\<forall>s. OperatorToken s \<in> set [OperatorToken ''+'', LeftParenToken, OperatorToken ''-'', OperatorToken ''*'']
        \<longrightarrow> has default_engine s"
    by (auto simp: has_default_iff)
  have ranks: "takeWhile (outranks default_engine ''+'')
        (rev [OperatorToken ''+'', LeftParenToken, OperatorToken ''-'', OperatorToken ''*''])
      = [OperatorToken ''*'', OperatorToken ''-'']"
    "rev (dropWhile (outranks default_engine ''+'')
        (rev [OperatorToken ''+'', LeftParenToken, OperatorToken ''-'', OperatorToken ''*'']))
      = [OperatorToken ''+'', LeftParenToken]"
    by (simp_all add: outranks_def default_engine_def)
  have "has default_engine ''-''" and "has default_engine ''*''"
    by (simp_all add: has_default_iff)
  then show ?thesis
    using reg ranks
      operators_group_left [of default_engine "''+''"
        "[OperatorToken ''+'', LeftParenToken, OperatorToken ''-'', OperatorToken ''*'']"
        "[NumberToken 1]" "''-''"
        "\<lparr>symbol = ''-'', func = (\<lambda>a b. Returns (a - b)), precedence = 1, associative = True\<rparr>"
        "''-''"
        "\<lparr>symbol = ''-'', func = (\<lambda>a b. Returns (a - b)), precedence = 1, associative = True\<rparr>"
        7 2 1]
    by (simp add: get_default apply_default)
qed

subsection \<open>Two minus signs in a row\<close>

text \<open>
  C10. The input \<^verbatim>\<open>--1\<close> is accepted. The second \<^verbatim>\<open>-\<close> emits its implicit zero and then pops
  the first \<^verbatim>\<open>-\<close>, so the postfix sequence is \<open>0 0 - 1 -\<close>, and the value left on the
  evaluator's stack is \<open>-1\<close>, not \<open>1\<close>.
\<close>

theorem double_unary_minus:
  "tokenise default_engine ''--1'' =
     Inr [OperatorToken ''-'', OperatorToken ''-'', NumberToken 1] \<and>
   rpn_loop default_engine [OperatorToken ''-'', OperatorToken ''-''] ([], [], None) =
     Inr ([NumberToken 0, NumberToken 0, OperatorToken ''-''], [OperatorToken ''-''],
          Some (OperatorToken ''-'')) \<and>
   to_rpn default_engine [OperatorToken ''-'', OperatorToken ''-'', NumberToken 1] =
     Inr [NumberToken 0, NumberToken 0, OperatorToken ''-'', NumberToken 1, OperatorToken ''-''] \<and>
   eval_loop default_engine
     [NumberToken 0, NumberToken 0, OperatorToken ''-'', NumberToken 1, OperatorToken ''-''] []
     = Inr [- 1] \<and>
   eval_expr ''--1'' = Inr (PyList [- 1]) \<and>
   eval_expr ''--1'' \<noteq> Inr (PyList [1])"
proof -
  have tok: "tokenise default_engine ''--1'' =
     Inr [OperatorToken ''-'', OperatorToken ''-'', NumberToken 1]"
    by (simp add: tokenise_eval)
  have mid: "rpn_loop default_engine [OperatorToken ''-'', OperatorToken ''-''] ([], [], None) =
     Inr ([NumberToken 0, NumberToken 0, OperatorToken ''-''], [OperatorToken ''-''],
          Some (OperatorToken ''-''))"
    by (simp add: to_rpn_eval)
  have rpn: "to_rpn default_engine [OperatorToken ''-'', OperatorToken ''-'', NumberToken 1] =
     Inr [NumberToken 0, NumberToken 0, OperatorToken ''-'', NumberToken 1, OperatorToken ''-'']"
    by (simp add: to_rpn_eval)
  have loop: "eval_loop default_engine
     [NumberToken 0, NumberToken 0, OperatorToken ''-'', NumberToken 1, OperatorToken ''-''] []
     = Inr [- 1]"
    by (simp add: apply_default)
  from tok rpn loop have val: "eval_expr ''--1'' = Inr (PyList [- 1])"
    by (simp add: eval_expr_default evaluate_def eval_rpn_def)
  then have "eval_expr ''--1'' \<noteq> Inr (PyList [1])"
    by simp
  with tok mid rpn loop val show ?thesis by simp
qed

subsection \<open>What \<open>evaluate\<close> returns\<close>

lemma eval_rpn_returns_list: "eval_rpn eng tokens = Inr r \<Longrightarrow> \<exists>v. r = PyList [v]"
  by (auto simp: eval_rpn_def length_Suc_conv split: sum.splits if_splits)

lemma evaluate_returns_list: "evaluate eng expression = Inr r \<Longrightarrow> \<exists>v. r = PyList [v]"
  by (auto simp: evaluate_def split: sum.splits dest: eval_rpn_returns_list)

text \<open>
  C1. \<^verbatim>\<open>evaluate("1 + 2 * 3")\<close> and \<^verbatim>\<open>evaluate("2 ^ 3 * 2")\<close> compute \<open>7\<close> and \<open>16\<close>, but
  \<open>evaluate\<close> returns the value stack, the one-element lists \<open>[7]\<close> and \<open>[16]\<close>. No
  input makes it return a number, and Python's \<^verbatim>\<open>==\<close> between the list and the number
  is false.
\<close>

theorem evaluate_returns_value_stack:
  "eval_expr ''1 + 2 * 3'' = Inr (PyList [7]) \<and>
   \<not> py_eq (PyList [7]) (PyFloat 7) \<and>
   eval_expr ''2 ^ 3 * 2'' = Inr (PyList [16]) \<and>
   \<not> py_eq (PyList [16]) (PyFloat 16) \<and>
   (\<forall>eng expression v. evaluate eng expression \<noteq> Inr (PyFloat v))"
proof -
  have "tokenise default_engine ''1 + 2 * 3'' =
      Inr [NumberToken 1, OperatorToken ''+'', NumberToken 2, OperatorToken ''*'', NumberToken 3]"
    by (simp add: tokenise_eval)
  moreover have "to_rpn default_engine
      [NumberToken 1, OperatorToken ''+'', NumberToken 2, OperatorToken ''*'', NumberToken 3]
    = Inr [NumberToken 1, NumberToken 2, NumberToken 3, OperatorToken ''*'', OperatorToken ''+'']"
    by (simp add: to_rpn_eval)
  moreover have "eval_rpn default_engine
      [NumberToken 1, NumberToken 2, NumberToken 3, OperatorToken ''*'', OperatorToken ''+'']
    = Inr (PyList [7])"
    by (simp add: eval_rpn_def apply_default)
  ultimately have first: "eval_expr ''1 + 2 * 3'' = Inr (PyList [7])"
    by (simp add: eval_expr_default evaluate_def)
  have "tokenise default_engine ''2 ^ 3 * 2'' =
      Inr [NumberToken 2, OperatorToken ''^'', NumberToken 3, OperatorToken ''*'', NumberToken 2]"
    by (simp add: tokenise_eval)
  moreover have "to_rpn default_engine
      [NumberToken 2, OperatorToken ''^'', NumberToken 3, OperatorToken ''*'', NumberToken 2]
    = Inr [NumberToken 2, NumberToken 3, OperatorToken ''^'', NumberToken 2, OperatorToken ''*'']"
    by (simp add: to_rpn_eval)
  moreover have "eval_rpn default_engine
      [NumberToken 2, NumberToken 3, OperatorToken ''^'', NumberToken 2, OperatorToken ''*'']
    = Inr (PyList [16])"
    by (simp add: eval_rpn_def apply_default apply_default_pow)
  ultimately have second: "eval_expr ''2 ^ 3 * 2'' = Inr (PyList [16])"
    by (simp add: eval_expr_default evaluate_def)
  have "\<forall>eng expression v. evaluate eng expression \<noteq> Inr (PyFloat v)"
    by (auto dest: evaluate_returns_list)
  with first second show ?thesis by simp
qed

subsection \<open>Unary minus\<close>

lemma unary_minus_emits_zero:
  "unary_position prev \<Longrightarrow>
   rpn_step eng (OperatorToken ''-'') (out, ops, prev) = Inr (out', ops', prev') \<Longrightarrow>
   \<exists>popped. out' = out @ NumberToken 0 # rev popped \<and> ops = butlast ops' @ popped \<and>
     last ops' = OperatorToken ''-'' \<and> prev' = Some (OperatorToken ''-'')"
  by (auto split: sum.splits dest!: pop_by_precedence_Inr)

text \<open>
  C3. A \<^verbatim>\<open>-\<close> read at the start, after an operator or after a left parenthesis puts an
  implicit \<open>0\<close> on the output before it is handled as a binary operator: \<^verbatim>\<open>-1 + 2\<close> becomes
  \<open>0 1 - 2 +\<close> and \<^verbatim>\<open>-(-1)\<close> becomes \<open>0 0 1 - -\<close>, and the value computed is \<open>1\<close> for
  both. What \<open>evaluate\<close> returns for them is the value stack \<open>[1]\<close>, which Python's
  \<^verbatim>\<open>==\<close> does not equate with the number \<open>1\<close>.
\<close>

theorem unary_minus_examples:
  "to_rpn default_engine [OperatorToken ''-'', NumberToken 1, OperatorToken ''+'', NumberToken 2]
     = Inr [NumberToken 0, NumberToken 1, OperatorToken ''-'', NumberToken 2, OperatorToken ''+''] \<and>
   eval_expr ''-1 + 2'' = Inr (PyList [1]) \<and>
   to_rpn default_engine
       [OperatorToken ''-'', LeftParenToken, OperatorToken ''-'', NumberToken 1, RightParenToken]
     = Inr [NumberToken 0, NumberToken 0, NumberToken 1, OperatorToken ''-'', OperatorToken ''-''] \<and>
   eval_expr ''-(-1)'' = Inr (PyList [1]) \<and>
   \<not> py_eq (PyList [1]) (PyFloat 1)"
proof -
  have tok1: "tokenise default_engine ''-1 + 2'' =
      Inr [OperatorToken ''-'', NumberToken 1, OperatorToken ''+'', NumberToken 2]"
    by (simp add: tokenise_eval)
  have rpn1: "to_rpn default_engine
      [OperatorToken ''-'', NumberToken 1, OperatorToken ''+'', NumberToken 2]
     = Inr [NumberToken 0, NumberToken 1, OperatorToken ''-'', NumberToken 2, OperatorToken ''+'']"
    by (simp add: to_rpn_eval)
  have "eval_rpn default_engine
      [NumberToken 0, NumberToken 1, OperatorToken ''-'', NumberToken 2, OperatorToken ''+'']
     = Inr (PyList [1])"
    by (simp add: eval_rpn_def apply_default)
  with tok1 rpn1 have val1: "eval_expr ''-1 + 2'' = Inr (PyList [1])"
    by (simp add: eval_expr_default evaluate_def)
  have tok2: "tokenise default_engine ''-(-1)'' =
      Inr [OperatorToken ''-'', LeftParenToken, OperatorToken ''-'', NumberToken 1, RightParenToken]"
    by (simp add: tokenise_eval)
  have rpn2: "to_rpn default_engine
       [OperatorToken ''-'', LeftParenToken, OperatorToken ''-'', NumberToken 1, RightParenToken]
     = Inr [NumberToken 0, NumberToken 0, NumberToken 1, OperatorToken ''-'', OperatorToken ''-'']"
    by (simp add: to_rpn_eval)
  have "eval_rpn default_engine
      [NumberToken 0, NumberToken 0, NumberToken 1, OperatorToken ''-'', OperatorToken ''-'']
     = Inr (PyList [1])"
    by (simp add: eval_rpn_def apply_default)
  with tok2 rpn2 have val2: "eval_expr ''-(-1)'' = Inr (PyList [1])"
    by (simp add: eval_expr_default evaluate_def)
  from rpn1 val1 rpn2 val2 show ?thesis by simp
qed

end
